theory Spec2Isabelle
  imports Complex_Main
begin

section \<open>Values of the request handlers\<close>

text \<open>
  The handlers of \<^verbatim>\<open>server.js\<close> read fields of a JSON body (or of the query string)
  without checking their types, so a field is any value that \<^verbatim>\<open>JSON.parse\<close> yields, or
  \<^verbatim>\<open>undefined\<close> when the field is absent. A finite Number is represented by its exact
  rational value (so \<^verbatim>\<open>-0\<close> and \<^verbatim>\<open>0\<close> are one value, as they are for \<^verbatim>\<open>===\<close>).
\<close>

datatype json =
    JUndefined
  | JNull
  | JBool bool
  | JNum rat
  | JStr string
  | JArr "json list"
  | JObj "(string \<times> json) list"

text \<open>
  \<^verbatim>\<open>a === b\<close> where \<open>a\<close> is held by the store and \<open>b\<close> comes from the current request:
  primitives are compared by value, and an array or object of a freshly parsed request is
  never the same reference as a stored one.
\<close>

fun strict_eq :: "json \<Rightarrow> json \<Rightarrow> bool" where
  "strict_eq JUndefined JUndefined = True"
| "strict_eq JNull JNull = True"
| "strict_eq (JBool a) (JBool b) = (a = b)"
| "strict_eq (JNum a) (JNum b) = (a = b)"
| "strict_eq (JStr a) (JStr b) = (a = b)"
| "strict_eq _ _ = False"

section \<open>The in-memory store\<close>

text \<open>
  \<^verbatim>\<open>let users = []; let tasks = []; let taskId = 1;\<close>
  A user is \<^verbatim>\<open>{ username, password: hashedPassword }\<close>, a task is
  \<^verbatim>\<open>{ id, username, task, status }\<close>. Task ids and the counter are integral Numbers;
  they are modelled as unbounded integers (Number arithmetic on integers is exact below
  \<open>2 ^ 53\<close>).
\<close>

record user =
  user_username :: json
  user_password :: string

record task =
  task_id :: int
  task_username :: json
  task_task :: json
  task_status :: json

record store =
  users :: "user list"
  tasks :: "task list"
  taskId :: int

definition init :: store where
  "init = \<lparr>users = [], tasks = [], taskId = 1\<rparr>"

section \<open>Responses\<close>

text \<open>
  A handler either sends a response (status code and body; \<^verbatim>\<open>res.send\<close> without
  \<^verbatim>\<open>res.status\<close> is 200, \<^verbatim>\<open>res.json\<close> sends the array it is given), or, for the two
  \<^verbatim>\<open>async\<close> handlers, its promise is rejected by bcryptjs and no response is sent.
\<close>

datatype body = Text string | Json "task list"

datatype response = Response nat body | Rejected string

section \<open>The bcryptjs library\<close>

text \<open>
  \<^verbatim>\<open>bcrypt.hash(password, 8)\<close> draws a random salt and \<^verbatim>\<open>bcrypt.compare(password, hash)\<close>
  verifies a password against a stored hash. The library is a parameter of the model: the
  salt drawn is an argument of the hash function. Both functions reject (with
  \<^verbatim>\<open>Illegal arguments\<close>) when the password is not a string.
\<close>

record bcrypt =
  bc_hash :: "string \<Rightarrow> string \<Rightarrow> string"
  bc_compare :: "string \<Rightarrow> string \<Rightarrow> bool"

section \<open>parseInt\<close>

text \<open>
  \<^verbatim>\<open>parseInt(id)\<close> with no radix, on a string: leading white space is skipped, then an
  optional sign, then a prefix \<^verbatim>\<open>0x\<close> or \<^verbatim>\<open>0X\<close> selects radix 16 (radix 10 otherwise),
  and the longest run of digits of that radix is the number; when the run is empty the
  result is \<^verbatim>\<open>NaN\<close>, here \<open>None\<close>. A character stands for the code unit of its
  number, so the white space of the model is that below 256. The result is the exact
  integer; the Number that JavaScript returns is that integer rounded, which is the same
  integer below \<open>2 ^ 53\<close> and is at least \<open>2 ^ 53\<close> otherwise.
\<close>

definition is_white_space :: "char \<Rightarrow> bool" where
  "is_white_space c = ((of_char c :: nat) \<in> {9, 10, 11, 12, 13, 32, 160})"

definition digit_of :: "char \<Rightarrow> nat option" where
  "digit_of c =
     (let n = (of_char c :: nat) in
      if 48 \<le> n \<and> n \<le> 57 then Some (n - 48)
      else if 97 \<le> n \<and> n \<le> 122 then Some (n - 87)
      else if 65 \<le> n \<and> n \<le> 90 then Some (n - 55)
      else None)"

definition radix_digit :: "nat \<Rightarrow> char \<Rightarrow> bool" where
  "radix_digit R c = (case digit_of c of Some d \<Rightarrow> d < R | None \<Rightarrow> False)"

fun math_int :: "nat \<Rightarrow> nat \<Rightarrow> string \<Rightarrow> nat" where
  "math_int R acc [] = acc"
| "math_int R acc (c # cs) =
     math_int R (acc * R + (case digit_of c of Some d \<Rightarrow> d | None \<Rightarrow> 0)) cs"

definition strip_sign :: "string \<Rightarrow> int \<times> string" where
  "strip_sign S =
     (case S of
        [] \<Rightarrow> (1, S)
      | c # r \<Rightarrow>
          if c = CHR ''-'' then (- 1, r)
          else if c = CHR ''+'' then (1, r)
          else (1, S))"

definition strip_prefix :: "string \<Rightarrow> nat \<times> string" where
  "strip_prefix S =
     (if take 2 S = ''0x'' \<or> take 2 S = ''0X'' then (16, drop 2 S) else (10, S))"

definition parseInt :: "string \<Rightarrow> int option" where
  "parseInt inputString =
     (let (sign, S) = strip_sign (dropWhile is_white_space inputString);
          (R, S') = strip_prefix S;
          Z = takeWhile (radix_digit R) S'
      in if Z = [] then None else Some (sign * int (math_int R 0 Z)))"

section \<open>The handlers\<close>

text \<open>\<^verbatim>\<open>users.find(user => user.username === username)\<close>\<close>

definition find_user :: "json \<Rightarrow> store \<Rightarrow> user option" where
  "find_user username s = find (\<lambda>user. strict_eq (user_username user) username) (users s)"

text \<open>
  \<^verbatim>\<open>app.post('/register')\<close>: the password is hashed first (the handler is rejected there
  when it is not a string), then the duplicate check, then the push.
\<close>

definition register :: "bcrypt \<Rightarrow> string \<Rightarrow> json \<Rightarrow> json \<Rightarrow> store \<Rightarrow> response \<times> store" where
  "register B salt username password s =
     (case password of
        JStr pw \<Rightarrow>
          (let hashedPassword = bc_hash B salt pw in
           if find_user username s \<noteq> None
           then (Response 400 (Text ''User already exists''), s)
           else (Response 201 (Text ''User registered''),
                 s\<lparr>users := users s @
                      [\<lparr>user_username = username, user_password = hashedPassword\<rparr>]\<rparr>))
      | _ \<Rightarrow> (Rejected ''Illegal arguments'', s))"

text \<open>
  \<^verbatim>\<open>app.post('/login')\<close>: \<^verbatim>\<open>!user || !(await bcrypt.compare(password, user.password))\<close>;
  the comparison is only reached when the user was found.
\<close>

definition login :: "bcrypt \<Rightarrow> json \<Rightarrow> json \<Rightarrow> store \<Rightarrow> response \<times> store" where
  "login B username password s =
     (case find_user username s of
        None \<Rightarrow> (Response 400 (Text ''Invalid credentials''), s)
      | Some user \<Rightarrow>
          (case password of
             JStr pw \<Rightarrow>
               if \<not> bc_compare B pw (user_password user)
               then (Response 400 (Text ''Invalid credentials''), s)
               else (Response 200 (Text ''Logged in successfully''), s)
           | _ \<Rightarrow> (Rejected ''Illegal arguments'', s)))"

text \<open>\<^verbatim>\<open>app.post('/task')\<close>: \<^verbatim>\<open>{ id: taskId++, username, task, status: 'backlog' }\<close>\<close>

definition post_task :: "json \<Rightarrow> json \<Rightarrow> store \<Rightarrow> response \<times> store" where
  "post_task username task_text s =
     (if find_user username s = None
      then (Response 400 (Text ''User not found''), s)
      else
        (let newTask = \<lparr>task_id = taskId s, task_username = username,
                         task_task = task_text, task_status = JStr ''backlog''\<rparr>
         in (Response 201 (Text ''Task added''),
             s\<lparr>tasks := tasks s @ [newTask], taskId := taskId s + 1\<rparr>)))"

text \<open>
  \<^verbatim>\<open>app.patch('/task/:id')\<close>: \<^verbatim>\<open>tasks.find(task => task.id === parseInt(id))\<close> is the first
  task of the collection with that id (none when \<^verbatim>\<open>parseInt\<close> is \<^verbatim>\<open>NaN\<close>), and
  \<^verbatim>\<open>task.status = status\<close> writes to that task in place.
\<close>

definition find_task :: "int option \<Rightarrow> task list \<Rightarrow> task option" where
  "find_task n ts = find (\<lambda>t. Some (task_id t) = n) ts"

fun assign_status :: "int option \<Rightarrow> json \<Rightarrow> task list \<Rightarrow> task list" where
  "assign_status n v [] = []"
| "assign_status n v (t # ts) =
     (if Some (task_id t) = n then t\<lparr>task_status := v\<rparr> # ts
      else t # assign_status n v ts)"

definition valid_statuses :: "json list" where
  "valid_statuses = [JStr ''backlog'', JStr ''inProgress'', JStr ''done'', JStr ''onAccess'']"

definition patch_task :: "string \<Rightarrow> json \<Rightarrow> store \<Rightarrow> response \<times> store" where
  "patch_task id_str status s =
     (case find_task (parseInt id_str) (tasks s) of
        None \<Rightarrow> (Response 404 (Text ''Task not found''), s)
      | Some t \<Rightarrow>
          if \<not> list_ex (\<lambda>v. strict_eq v status) valid_statuses
          then (Response 400 (Text ''Invalid status''), s)
          else (Response 200 (Text ''Task updated''),
                s\<lparr>tasks := assign_status (parseInt id_str) status (tasks s)\<rparr>))"

text \<open>
  \<^verbatim>\<open>app.delete('/task/:id')\<close>: the filter is assigned to \<^verbatim>\<open>tasks\<close> before the lengths are
  compared.
\<close>

definition delete_task :: "string \<Rightarrow> store \<Rightarrow> response \<times> store" where
  "delete_task id_str s =
     (let initialLength = length (tasks s);
          s' = s\<lparr>tasks := filter (\<lambda>t. Some (task_id t) \<noteq> parseInt id_str) (tasks s)\<rparr>
      in if length (tasks s') = initialLength
         then (Response 404 (Text ''Task not found or already deleted''), s')
         else (Response 200 (Text ''Task deleted''), s'))"

text \<open>\<^verbatim>\<open>app.get('/tasks')\<close>\<close>

definition get_tasks :: "json \<Rightarrow> store \<Rightarrow> response \<times> store" where
  "get_tasks username s =
     (if find_user username s = None
      then (Response 400 (Text ''User not found''), s)
      else
        (let userTasks = filter (\<lambda>t. strict_eq (task_username t) username) (tasks s)
         in (Response 200 (Json userTasks), s)))"

section \<open>Sequences of requests\<close>

text \<open>
  The six routes, each with what it reads from the request; \<^verbatim>\<open>Register\<close> also carries
  the salt that \<^verbatim>\<open>bcrypt.hash\<close> draws. Requests are handled one after the other from
  the initial store: the synchronous part of a handler that reads and writes the store is
  never interleaved with another handler.
\<close>

datatype request =
    Register string json json
  | Login json json
  | PostTask json json
  | PatchTask string json
  | DeleteTask string
  | GetTasks json

fun handle :: "bcrypt \<Rightarrow> request \<Rightarrow> store \<Rightarrow> response \<times> store" where
  "handle B (Register salt username password) s = register B salt username password s"
| "handle B (Login username password) s = login B username password s"
| "handle B (PostTask username task_text) s = post_task username task_text s"
| "handle B (PatchTask id_str status) s = patch_task id_str status s"
| "handle B (DeleteTask id_str) s = delete_task id_str s"
| "handle B (GetTasks username) s = get_tasks username s"

fun run :: "bcrypt \<Rightarrow> request list \<Rightarrow> store \<Rightarrow> store" where
  "run B [] s = s"
| "run B (r # rs) s = run B rs (snd (handle B r s))"

text \<open>
  The ids a request assigns are the ids of the collection after it that were not in the
  collection before it; \<open>created_ids\<close> lists the ids assigned along a sequence of requests,
  in the order of assignment.
\<close>

definition ids :: "store \<Rightarrow> int list" where
  "ids s = map task_id (tasks s)"

definition assigned_ids :: "bcrypt \<Rightarrow> request \<Rightarrow> store \<Rightarrow> int list" where
  "assigned_ids B r s = filter (\<lambda>i. i \<notin> set (ids s)) (ids (snd (handle B r s)))"

fun created_ids :: "bcrypt \<Rightarrow> request list \<Rightarrow> store \<Rightarrow> int list" where
  "created_ids B [] s = []"
| "created_ids B (r # rs) s = assigned_ids B r s @ created_ids B rs (snd (handle B r s))"

text \<open>The invariant of the store: the counter is at least 1, every id held is at least 1
  and below the counter, and the ids are strictly increasing along the collection.\<close>

definition store_inv :: "store \<Rightarrow> bool" where
  "store_inv s \<longleftrightarrow>
     1 \<le> taskId s \<and>
     list_all (\<lambda>i. 1 \<le> i \<and> i < taskId s) (ids s) \<and> sorted_wrt (<) (ids s)"

text \<open>
  To say that no handler looks at the text of a task: \<open>retext f\<close> replaces the text of
  every task held, and \<open>status_code\<close> is the status code of a response, if one is sent.
\<close>

definition retext :: "(task \<Rightarrow> json) \<Rightarrow> store \<Rightarrow> store" where
  "retext f s = s\<lparr>tasks := map (\<lambda>t. t\<lparr>task_task := f t\<rparr>) (tasks s)\<rparr>"

fun status_code :: "response \<Rightarrow> nat option" where
  "status_code (Response code b) = Some code"
| "status_code (Rejected e) = None"

section \<open>Example data\<close>

text \<open>
  A stand-in for the library, used only to run the handlers on concrete requests: the
  hash is the salt followed by the reversed password.
\<close>

definition toy_bcrypt :: bcrypt where
  "toy_bcrypt = \<lparr>bc_hash = (\<lambda>salt pw. salt @ rev pw),
                 bc_compare = (\<lambda>pw h. drop 2 h = rev pw)\<rparr>"

definition alice :: user where
  "alice = \<lparr>user_username = JStr ''alice'', user_password = ''s11wp''\<rparr>"

definition milk :: task where
  "milk = \<lparr>task_id = 1, task_username = JStr ''alice'', task_task = JStr ''buy milk'',
          task_status = JStr ''backlog''\<rparr>"

definition store1 :: store where
  "store1 = \<lparr>users = [alice], tasks = [milk], taskId = 2\<rparr>"

text \<open>Sequences of requests and the stores they lead to.\<close>

definition requests1 :: "request list" where
  "requests1 =
     [Register ''s1'' (JStr ''alice'') (JStr ''pw1''),
      PostTask (JStr ''alice'') (JStr ''buy milk''),
      PostTask (JStr ''alice'') (JStr ''walk''),
      DeleteTask ''1'',
      Login (JStr ''alice'') (JStr ''pw1''),
      PatchTask ''2'' (JStr ''done''),
      PostTask (JStr ''alice'') JUndefined,
      GetTasks (JStr ''alice'')]"

definition task10 :: task where
  "task10 = \<lparr>task_id = 10, task_username = JStr ''alice'', task_task = JStr ''tenth'',
            task_status = JStr ''backlog''\<rparr>"

definition store10 :: store where
  "store10 = \<lparr>users = [alice], tasks = [task10], taskId = 11\<rparr>"

definition requests10 :: "request list" where
  "requests10 =
     Register ''s1'' (JStr ''alice'') (JStr ''pw1'') #
     replicate 9 (PostTask (JStr ''alice'') (JStr ''t'')) @
     PostTask (JStr ''alice'') (JStr ''tenth'') #
     [DeleteTask ''1'', DeleteTask ''2'', DeleteTask ''3'', DeleteTask ''4'', DeleteTask ''5'',
      DeleteTask ''6'', DeleteTask ''7'', DeleteTask ''8'', DeleteTask ''9'']"

section \<open>Facts about strict equality and lookup\<close>

lemma strict_eq_imp_eq: "strict_eq a b \<Longrightarrow> a = b"
  by (cases a; cases b) simp_all

lemma strict_eq_JStr [simp]: "strict_eq a (JStr u) \<longleftrightarrow> a = JStr u"
  by (cases a) auto

lemma find_user_None:
  "find_user username s = None \<longleftrightarrow> \<not> (\<exists>u \<in> set (users s). strict_eq (user_username u) username)"
  by (auto simp: find_user_def find_None_iff)

lemma strict_eq_JStr_left [simp]: "strict_eq (JStr u) b \<longleftrightarrow> b = JStr u"
  by (cases b) auto

lemma strict_eq_registered:
  "strict_eq a q \<Longrightarrow> strict_eq b q \<longleftrightarrow> b = q"
  by (cases a; cases q; cases b) auto

lemma find_user_Some:
  "find_user username s = Some x \<Longrightarrow> x \<in> set (users s) \<and> strict_eq (user_username x) username"
  by (auto simp: find_user_def find_Some_iff)

text \<open>\<^verbatim>\<open>parseInt\<close> on the path parameters of the examples.\<close>

lemma parseInt_1: "parseInt ''1'' = Some 1"
  by code_simp

lemma parseInt_7: "parseInt ''7'' = Some 7"
  by code_simp

lemma parseInt_abc: "parseInt ''abc'' = None"
  by code_simp

section \<open>Creating a task\<close>

text \<open>
  C1. In every store, creating a task for (username, task): when no user record has
  exactly that username the answer is 400 \<^verbatim>\<open>User not found\<close> and the store (task
  collection and counter) is unchanged; otherwise the answer is 201, the task collection
  is the old one followed by one new task whose id is the current counter, whose status is
  \<^verbatim>\<open>backlog\<close> and whose username and task are the inputs, and the counter is one more.
\<close>

theorem post_task_spec:
  "(\<not> (\<exists>u \<in> set (users s). strict_eq (user_username u) username) \<longrightarrow>
      post_task username task_text s = (Response 400 (Text ''User not found''), s)) \<and>
   ((\<exists>u \<in> set (users s). strict_eq (user_username u) username) \<longrightarrow>
      fst (post_task username task_text s) = Response 201 (Text ''Task added'') \<and>
      users (snd (post_task username task_text s)) = users s \<and>
      tasks (snd (post_task username task_text s)) =
        tasks s @ [\<lparr>task_id = taskId s, task_username = username,
                    task_task = task_text, task_status = JStr ''backlog''\<rparr>] \<and>
      taskId (snd (post_task username task_text s)) = taskId s + 1)"
  by (simp add: post_task_def find_user_None Let_def)

theorem post_task_spec_witness:
  "post_task (JStr ''bob'') (JStr ''buy milk'') store1 =
     (Response 400 (Text ''User not found''), store1) \<and>
   fst (post_task (JStr ''alice'') (JStr ''walk'') store1) = Response 201 (Text ''Task added'') \<and>
   tasks (snd (post_task (JStr ''alice'') (JStr ''walk'') store1)) =
     [milk, \<lparr>task_id = 2, task_username = JStr ''alice'', task_task = JStr ''walk'',
             task_status = JStr ''backlog''\<rparr>] \<and>
   taskId (snd (post_task (JStr ''alice'') (JStr ''walk'') store1)) = 3"
  using post_task_spec [of store1 "JStr ''bob''" "JStr ''buy milk''"]
        post_task_spec [of store1 "JStr ''alice''" "JStr ''walk''"]
  by (simp add: store1_def alice_def)

subsection \<open>The task value is not validated\<close>

lemma find_user_retext: "find_user u (retext f s) = find_user u s"
  by (simp add: find_user_def retext_def)

lemma find_task_retext:
  "find_task n (map (\<lambda>t. t\<lparr>task_task := f t\<rparr>) ts) = None \<longleftrightarrow> find_task n ts = None"
  by (auto simp: find_task_def find_None_iff)

lemma status_code_retext:
  "status_code (fst (handle B r (retext f s))) = status_code (fst (handle B r s))"
proof (cases r)
  case (Register salt u p)
  then show ?thesis
    by (simp add: register_def find_user_retext split: json.splits)
next
  case (Login u p)
  then show ?thesis
    by (simp add: login_def find_user_retext split: json.splits option.splits)
next
  case (PostTask u v)
  then show ?thesis
    by (simp add: post_task_def find_user_retext)
next
  case (PatchTask p v)
  show ?thesis
  proof (cases "find_task (parseInt p) (tasks s)")
    case None
    then have "find_task (parseInt p) (tasks (retext f s)) = None"
      by (simp add: retext_def find_task_retext)
    with None PatchTask show ?thesis
      by (simp add: patch_task_def)
  next
    case (Some t)
    then obtain t' where "find_task (parseInt p) (tasks (retext f s)) = Some t'"
      using find_task_retext [of "parseInt p" f "tasks s"] by (auto simp: retext_def)
    with Some PatchTask show ?thesis
      by (simp add: patch_task_def)
  qed
next
  case (DeleteTask p)
  then show ?thesis
    by (simp add: delete_task_def Let_def retext_def comp_def)
next
  case (GetTasks u)
  then show ?thesis
    by (simp add: get_tasks_def find_user_retext)
qed

text \<open>
  C10. For a registered username, creating a task succeeds with 201 whatever the task
  value is, a missing field (\<open>JUndefined\<close>) and non-strings included: the value is stored
  as it is, in a task that takes the current counter as id, and the counter advances. The
  response of the handler does not depend on the task value at all, and the status code
  that any request gets does not depend on the texts of the tasks held.
\<close>

theorem post_task_unvalidated:
  "((\<exists>u \<in> set (users s). strict_eq (user_username u) username) \<longrightarrow>
      post_task username v s =
        (Response 201 (Text ''Task added''),
         s\<lparr>tasks := tasks s @ [\<lparr>task_id = taskId s, task_username = username,
                                 task_task = v, task_status = JStr ''backlog''\<rparr>],
           taskId := taskId s + 1\<rparr>)) \<and>
   fst (post_task username v s) = fst (post_task username v' s) \<and>
   status_code (fst (handle B r (retext f s))) = status_code (fst (handle B r s))"
  by (simp add: post_task_def find_user_None Let_def status_code_retext)

theorem post_task_unvalidated_witness:
  "post_task (JStr ''alice'') JUndefined store1 =
     (Response 201 (Text ''Task added''),
      store1\<lparr>tasks := [milk, \<lparr>task_id = 2, task_username = JStr ''alice'',
                               task_task = JUndefined, task_status = JStr ''backlog''\<rparr>],
             taskId := 3\<rparr>) \<and>
   fst (post_task (JStr ''alice'') (JNum 5) store1) = Response 201 (Text ''Task added'') \<and>
   status_code (fst (handle toy_bcrypt (DeleteTask ''1'') (retext (\<lambda>t. JNull) store1))) = Some 200"
  using post_task_unvalidated [of store1 "JStr ''alice''" JUndefined "JNum 5" toy_bcrypt
      "DeleteTask ''1''" "\<lambda>t. JNull"]
  by (simp add: store1_def alice_def milk_def post_task_def find_user_def delete_task_def
        parseInt_1)

section \<open>Listing the tasks of a user\<close>

text \<open>
  C2. In every store and for every query username: when no user is registered with
  exactly that username the answer is 400 \<^verbatim>\<open>User not found\<close>; otherwise it is 200 with
  the array of exactly the tasks whose username field is the query, in the order of the
  collection, which is the order of insertion; a registered user without tasks gets 200
  and the empty array. The store is unchanged.
\<close>

theorem get_tasks_spec:
  "(\<not> (\<exists>u \<in> set (users s). strict_eq (user_username u) username) \<longrightarrow>
      get_tasks username s = (Response 400 (Text ''User not found''), s)) \<and>
   ((\<exists>u \<in> set (users s). strict_eq (user_username u) username) \<longrightarrow>
      get_tasks username s =
        (Response 200 (Json (filter (\<lambda>t. task_username t = username) (tasks s))), s)) \<and>
   ((\<exists>u \<in> set (users s). strict_eq (user_username u) username) \<and>
    \<not> (\<exists>t \<in> set (tasks s). task_username t = username) \<longrightarrow>
      get_tasks username s = (Response 200 (Json []), s))"
proof -
  have eq: "filter (\<lambda>t. strict_eq (task_username t) username) (tasks s) =
            filter (\<lambda>t. task_username t = username) (tasks s)"
    if "u \<in> set (users s)" "strict_eq (user_username u) username" for u
    using that(2) by (simp add: strict_eq_registered cong: filter_cong)
  have empty: "filter (\<lambda>t. task_username t = username) (tasks s) = []"
    if "\<not> (\<exists>t \<in> set (tasks s). task_username t = username)"
    using that by (simp add: filter_empty_conv)
  show ?thesis
    by (auto simp: get_tasks_def find_user_None eq empty)
qed

theorem get_tasks_spec_witness:
  "get_tasks (JStr ''bob'') store1 = (Response 400 (Text ''User not found''), store1) \<and>
   get_tasks (JStr ''alice'') store1 = (Response 200 (Json [milk]), store1) \<and>
   get_tasks (JStr ''alice'') (store1\<lparr>tasks := []\<rparr>) =
     (Response 200 (Json []), store1\<lparr>tasks := []\<rparr>)"
  using get_tasks_spec [of store1 "JStr ''bob''"] get_tasks_spec [of store1 "JStr ''alice''"]
        get_tasks_spec [of "store1\<lparr>tasks := []\<rparr>" "JStr ''alice''"]
  by (simp add: store1_def alice_def milk_def)

section \<open>Updating the status of a task\<close>

text \<open>
  C4. In every store, when no task has the id that the path parameter parses to, the
  update answers 404 \<^verbatim>\<open>Task not found\<close> whatever the status value is, valid or not:
  the not-found check comes before the check of the status. The store is unchanged.
\<close>

theorem patch_task_not_found:
  "\<not> (\<exists>t \<in> set (tasks s). Some (task_id t) = parseInt id_str) \<Longrightarrow>
     patch_task id_str status s = (Response 404 (Text ''Task not found''), s)"
proof -
  assume "\<not> (\<exists>t \<in> set (tasks s). Some (task_id t) = parseInt id_str)"
  then have "find_task (parseInt id_str) (tasks s) = None"
    by (auto simp: find_task_def find_None_iff)
  then show ?thesis
    by (simp add: patch_task_def)
qed

theorem patch_task_not_found_witness:
  "patch_task ''7'' (JStr ''bogus'') store1 = (Response 404 (Text ''Task not found''), store1) \<and>
   patch_task ''7'' (JStr ''done'') store1 = (Response 404 (Text ''Task not found''), store1) \<and>
   patch_task ''abc'' JUndefined store1 = (Response 404 (Text ''Task not found''), store1)"
  using patch_task_not_found [of store1 "''7''" "JStr ''bogus''"]
        patch_task_not_found [of store1 "''7''" "JStr ''done''"]
        patch_task_not_found [of store1 "''abc''" JUndefined]
  by (simp add: store1_def milk_def parseInt_7 parseInt_abc)

lemma find_task_distinct:
  "distinct (map task_id ts) \<Longrightarrow> t \<in> set ts \<Longrightarrow> find_task (Some (task_id t)) ts = Some t"
  by (induction ts) (auto simp: find_task_def)

lemma assign_status_distinct:
  "distinct (map task_id ts) \<Longrightarrow>
   assign_status (Some n) v ts = map (\<lambda>t. if task_id t = n then t\<lparr>task_status := v\<rparr> else t) ts"
proof (induction ts)
  case Nil
  then show ?case by simp
next
  case (Cons a ts)
  show ?case
  proof (cases "task_id a = n")
    case True
    with Cons.prems have "\<forall>t \<in> set ts. task_id t \<noteq> n"
      by (metis distinct.simps(2) image_eqI list.simps(9) set_map)
    then have "map (\<lambda>t. if task_id t = n then t\<lparr>task_status := v\<rparr> else t) ts = ts"
      by (simp add: map_idI)
    with True show ?thesis by simp
  next
    case False
    with Cons show ?thesis by simp
  qed
qed

lemma includes_valid:
  "list_ex (\<lambda>v. strict_eq v status) valid_statuses \<longleftrightarrow>
   status \<in> {JStr ''backlog'', JStr ''inProgress'', JStr ''done'', JStr ''onAccess''}"
  by (auto simp: valid_statuses_def)

text \<open>
  C5. In every store whose task ids are pairwise distinct (as they are in every store that
  requests can produce, see \<open>run_distinct\<close> below) and for every task \<open>t\<close> in it, an update
  for the id of \<open>t\<close>: with a status outside backlog, inProgress, done, onAccess the answer
  is 400 \<^verbatim>\<open>Invalid status\<close> and the store is unchanged; with a status inside the set the
  answer is 200 and the store changes in the status of \<open>t\<close> only, which becomes the
  supplied value.
\<close>

theorem patch_task_status:
  assumes "distinct (map task_id (tasks s))" and "t \<in> set (tasks s)"
    and "parseInt id_str = Some (task_id t)"
  shows "(status \<notin> {JStr ''backlog'', JStr ''inProgress'', JStr ''done'', JStr ''onAccess''} \<longrightarrow>
            patch_task id_str status s = (Response 400 (Text ''Invalid status''), s)) \<and>
         (status \<in> {JStr ''backlog'', JStr ''inProgress'', JStr ''done'', JStr ''onAccess''} \<longrightarrow>
            patch_task id_str status s =
              (Response 200 (Text ''Task updated''),
               s\<lparr>tasks := map (\<lambda>t'. if t' = t then t\<lparr>task_status := status\<rparr> else t') (tasks s)\<rparr>))"
proof -
  have same: "task_id t' = task_id t \<longleftrightarrow> t' = t" if "t' \<in> set (tasks s)" for t'
    using assms(1,2) that by (meson distinct_map inj_onD)
  have m: "map (\<lambda>t'. if task_id t' = task_id t then t'\<lparr>task_status := status\<rparr> else t') (tasks s) =
           map (\<lambda>t'. if t' = t then t\<lparr>task_status := status\<rparr> else t') (tasks s)"
    by (rule map_cong) (auto simp: same)
  show ?thesis
    using assms
    by (simp add: patch_task_def find_task_distinct includes_valid assign_status_distinct m
             del: insert_iff)
qed

theorem patch_task_status_witness:
  "distinct (map task_id (tasks store1)) \<and> milk \<in> set (tasks store1) \<and>
   parseInt ''1'' = Some (task_id milk) \<and>
   patch_task ''1'' (JStr ''bogus'') store1 = (Response 400 (Text ''Invalid status''), store1) \<and>
   patch_task ''1'' (JStr ''done'') store1 =
     (Response 200 (Text ''Task updated''),
      store1\<lparr>tasks := [milk\<lparr>task_status := JStr ''done''\<rparr>]\<rparr>)"
proof -
  have h1: "distinct (map task_id (tasks store1))" by (simp add: store1_def)
  have h2: "milk \<in> set (tasks store1)" by (simp add: store1_def)
  have h3: "parseInt ''1'' = Some (task_id milk)" by (simp add: parseInt_1 milk_def)
  show ?thesis
    using h1 h2 h3 patch_task_status [OF h1 h2 h3, of "JStr ''bogus''"]
      patch_task_status [OF h1 h2 h3, of "JStr ''done''"]
    by (simp add: store1_def)
qed

section \<open>Deleting a task\<close>

lemma length_filter_eq: "length (filter P xs) = length xs \<longleftrightarrow> (\<forall>x \<in> set xs. P x)"
  by (metis filter_id_conv length_filter_less less_irrefl)

text \<open>
  C6. In every store and for every path parameter, the deletion answers 404 exactly when
  no task of the collection has the id that the parameter parses to, and then the store
  is unchanged; otherwise it answers 200 and the collection is the old one without the
  tasks of that id. Deleting the same id again then answers 404.
\<close>

theorem delete_task_spec:
  "(fst (delete_task id_str s) = Response 404 (Text ''Task not found or already deleted'') \<longleftrightarrow>
      \<not> (\<exists>t \<in> set (tasks s). Some (task_id t) = parseInt id_str)) \<and>
   (\<not> (\<exists>t \<in> set (tasks s). Some (task_id t) = parseInt id_str) \<longrightarrow>
      delete_task id_str s = (Response 404 (Text ''Task not found or already deleted''), s)) \<and>
   ((\<exists>t \<in> set (tasks s). Some (task_id t) = parseInt id_str) \<longrightarrow>
      delete_task id_str s =
        (Response 200 (Text ''Task deleted''),
         s\<lparr>tasks := filter (\<lambda>t. Some (task_id t) \<noteq> parseInt id_str) (tasks s)\<rparr>) \<and>
      fst (delete_task id_str (snd (delete_task id_str s))) =
        Response 404 (Text ''Task not found or already deleted''))"
proof -
  let ?P = "\<lambda>t. Some (task_id t) \<noteq> parseInt id_str"
  have keep: "filter ?P (tasks s) = tasks s"
    if "\<not> (\<exists>t \<in> set (tasks s). Some (task_id t) = parseInt id_str)"
    using that by (simp add: filter_id_conv)
  show ?thesis
    by (auto simp: delete_task_def Let_def length_filter_eq keep)
qed

theorem delete_task_spec_witness:
  "delete_task ''7'' store1 = (Response 404 (Text ''Task not found or already deleted''), store1) \<and>
   delete_task ''1'' store1 = (Response 200 (Text ''Task deleted''), store1\<lparr>tasks := []\<rparr>) \<and>
   fst (delete_task ''1'' (snd (delete_task ''1'' store1))) =
     Response 404 (Text ''Task not found or already deleted'')"
  using delete_task_spec [of "''7''" store1] delete_task_spec [of "''1''" store1]
  by (simp add: store1_def milk_def parseInt_1 parseInt_7 delete_task_def)

section \<open>Registration and login\<close>

text \<open>
  C7. In every store, registering (with a string password) a string username that a user
  record already has answers 400 \<^verbatim>\<open>User already exists\<close> and leaves the store unchanged.
  Registering a fresh username answers 201 and appends exactly one record, made of the
  username and of the hash that bcrypt returns for the salt and the password (the
  plaintext is not stored); a second attempt with the same username, whatever its
  password and salt, answers 400, and the collection holds exactly one entry for that
  username.
\<close>

theorem register_spec:
  "((\<exists>x \<in> set (users s). user_username x = JStr u) \<longrightarrow>
      register B salt (JStr u) (JStr pw) s = (Response 400 (Text ''User already exists''), s)) \<and>
   (\<not> (\<exists>x \<in> set (users s). user_username x = JStr u) \<longrightarrow>
      register B salt (JStr u) (JStr pw) s =
        (Response 201 (Text ''User registered''),
         s\<lparr>users := users s @ [\<lparr>user_username = JStr u, user_password = bc_hash B salt pw\<rparr>]\<rparr>) \<and>
      register B salt' (JStr u) (JStr pw') (snd (register B salt (JStr u) (JStr pw) s)) =
        (Response 400 (Text ''User already exists''), snd (register B salt (JStr u) (JStr pw) s)) \<and>
      length (filter (\<lambda>x. user_username x = JStr u)
        (users (snd (register B salt' (JStr u) (JStr pw')
           (snd (register B salt (JStr u) (JStr pw) s)))))) = 1)"
proof -
  have none: "filter (\<lambda>x. user_username x = JStr u) (users s) = []"
    if "\<not> (\<exists>x \<in> set (users s). user_username x = JStr u)"
    using that by (simp add: filter_empty_conv)
  show ?thesis
    by (auto simp: register_def find_user_None none)
qed

theorem register_spec_witness:
  "register toy_bcrypt ''s2'' (JStr ''alice'') (JStr ''pw2'') store1 =
     (Response 400 (Text ''User already exists''), store1) \<and>
   register toy_bcrypt ''s2'' (JStr ''bob'') (JStr ''pw2'') store1 =
     (Response 201 (Text ''User registered''),
      store1\<lparr>users := [alice, \<lparr>user_username = JStr ''bob'', user_password = ''s22wp''\<rparr>]\<rparr>) \<and>
   length (filter (\<lambda>x. user_username x = JStr ''bob'')
     (users (snd (register toy_bcrypt ''s3'' (JStr ''bob'') (JStr ''pw3'')
        (snd (register toy_bcrypt ''s2'' (JStr ''bob'') (JStr ''pw2'') store1)))))) = 1"
  using register_spec [of store1 "''alice''" toy_bcrypt "''s2''" "''pw2''"]
        register_spec [of store1 "''bob''" toy_bcrypt "''s2''" "''pw2''" "''s3''" "''pw3''"]
  by (simp add: store1_def alice_def toy_bcrypt_def register_def find_user_def)

text \<open>
  C8, as the code has it. In every store, a login whose password is a string answers 400
  exactly when no user has the username or the password does not verify against the hash
  stored for the user found; the two failures send the same response, status 400 and body
  \<^verbatim>\<open>Invalid credentials\<close>. Every other login with a string password answers 200. An
  unknown username gets that same 400 whatever the password field is, and no login
  changes the store.
\<close>

theorem login_spec:
  "(fst (login B username (JStr pw) s) = Response 400 (Text ''Invalid credentials'') \<longleftrightarrow>
      \<not> (\<exists>x \<in> set (users s). strict_eq (user_username x) username) \<or>
      (\<exists>x. find_user username s = Some x \<and> \<not> bc_compare B pw (user_password x))) \<and>
   (fst (login B username (JStr pw) s) \<noteq> Response 400 (Text ''Invalid credentials'') \<longrightarrow>
      fst (login B username (JStr pw) s) = Response 200 (Text ''Logged in successfully'')) \<and>
   (\<not> (\<exists>x \<in> set (users s). strict_eq (user_username x) username) \<longrightarrow>
      fst (login B username password s) = Response 400 (Text ''Invalid credentials'')) \<and>
   snd (login B username password s) = s"
proof (cases "find_user username s")
  case None
  then show ?thesis
    using find_user_None [of username s] by (simp add: login_def)
next
  case (Some x)
  then have "\<exists>x \<in> set (users s). strict_eq (user_username x) username"
    using find_user_Some by blast
  with Some show ?thesis
    by (simp add: login_def split: json.splits)
qed

theorem login_spec_witness:
  "fst (login toy_bcrypt (JStr ''bob'') (JStr ''pw1'') store1) =
     Response 400 (Text ''Invalid credentials'') \<and>
   fst (login toy_bcrypt (JStr ''alice'') (JStr ''wrong'') store1) =
     Response 400 (Text ''Invalid credentials'') \<and>
   fst (login toy_bcrypt (JStr ''alice'') (JStr ''pw1'') store1) =
     Response 200 (Text ''Logged in successfully'') \<and>
   snd (login toy_bcrypt (JStr ''alice'') (JStr ''pw1'') store1) = store1"
proof -
  have bob: "\<not> (\<exists>x \<in> set (users store1). strict_eq (user_username x) (JStr ''bob''))"
    by (simp add: store1_def alice_def)
  have al: "\<exists>x \<in> set (users store1). strict_eq (user_username x) (JStr ''alice'')"
    by (simp add: store1_def alice_def)
  have f: "find_user (JStr ''alice'') store1 = Some alice"
    by (simp add: find_user_def store1_def alice_def)
  have wrong: "\<not> bc_compare toy_bcrypt ''wrong'' (user_password alice)"
    by (simp add: toy_bcrypt_def alice_def)
  have right: "bc_compare toy_bcrypt ''pw1'' (user_password alice)"
    by (simp add: toy_bcrypt_def alice_def)
  have a: "fst (login toy_bcrypt (JStr ''bob'') (JStr ''pw1'') store1) =
      Response 400 (Text ''Invalid credentials'')"
    using login_spec [of toy_bcrypt "JStr ''bob''" "''pw1''" store1 "JStr ''pw1''"] bob
    by blast
  have b: "fst (login toy_bcrypt (JStr ''alice'') (JStr ''wrong'') store1) =
      Response 400 (Text ''Invalid credentials'')"
    using login_spec [of toy_bcrypt "JStr ''alice''" "''wrong''" store1 "JStr ''wrong''"] f wrong
    by blast
  have c: "fst (login toy_bcrypt (JStr ''alice'') (JStr ''pw1'') store1) =
      Response 200 (Text ''Logged in successfully'')"
    using login_spec [of toy_bcrypt "JStr ''alice''" "''pw1''" store1 "JStr ''pw1''"] f al right
    by (metis option.inject)
  have d: "snd (login toy_bcrypt (JStr ''alice'') (JStr ''pw1'') store1) = store1"
    using login_spec [of toy_bcrypt "JStr ''alice''" "''pw1''" store1 "JStr ''pw1''"]
    by blast
  from a b c d show ?thesis by blast
qed

text \<open>
  When the password field is absent or not a string, \<^verbatim>\<open>bcrypt.compare\<close> rejects, and it
  is only called for a username that is registered: no response is sent, whatever the
  library computes for strings.
\<close>

lemma login_not_string:
  assumes "find_user username s = Some x" and "\<And>pw. password \<noteq> JStr pw"
  shows "login B username password s = (Rejected ''Illegal arguments'', s)"
  using assms by (cases password) (auto simp: login_def)

text \<open>
  C8 as stated fails on a login without a password field: for the registered username
  \<^verbatim>\<open>alice\<close> the password does not verify and yet the answer is not 400, no response is
  sent, while for the unregistered username \<^verbatim>\<open>bob\<close> the answer is 400. The two
  outcomes differ, so this request tells a registered username from an unregistered one.
\<close>

theorem login_absent_password_counterexample:
  "fst (login toy_bcrypt (JStr ''alice'') JUndefined store1) = Rejected ''Illegal arguments'' \<and>
   fst (login toy_bcrypt (JStr ''bob'') JUndefined store1) =
     Response 400 (Text ''Invalid credentials'') \<and>
   fst (login toy_bcrypt (JStr ''alice'') JUndefined store1) \<noteq>
     fst (login toy_bcrypt (JStr ''bob'') JUndefined store1)"
  by (simp add: login_def find_user_def store1_def alice_def)

section \<open>Task ids are never reused\<close>

lemma ids_assign_status: "map task_id (assign_status n v ts) = map task_id ts"
  by (induction ts) auto

lemma handle_taskId_cases:
  "taskId (snd (handle B r s)) = taskId s \<and> (\<exists>P. ids (snd (handle B r s)) = filter P (ids s))
   \<or> taskId (snd (handle B r s)) = taskId s + 1 \<and> ids (snd (handle B r s)) = ids s @ [taskId s]"
proof (cases r)
  case (Register salt u p)
  have "ids (snd (handle B r s)) = filter (\<lambda>_. True) (ids s)"
    using Register by (auto simp: register_def ids_def split: json.splits)
  moreover have "taskId (snd (handle B r s)) = taskId s"
    using Register by (auto simp: register_def split: json.splits)
  ultimately show ?thesis by blast
next
  case (Login u p)
  have "ids (snd (handle B r s)) = filter (\<lambda>_. True) (ids s)"
    using Login by (auto simp: login_def ids_def split: json.splits option.splits)
  moreover have "taskId (snd (handle B r s)) = taskId s"
    using Login by (auto simp: login_def split: json.splits option.splits)
  ultimately show ?thesis by blast
next
  case (PostTask u t)
  show ?thesis
  proof (cases "find_user u s = None")
    case True
    then have "ids (snd (handle B r s)) = filter (\<lambda>_. True) (ids s)" "taskId (snd (handle B r s)) = taskId s"
      using PostTask by (auto simp: post_task_def ids_def)
    then show ?thesis by blast
  next
    case False
    then show ?thesis
      using PostTask by (auto simp: post_task_def ids_def Let_def)
  qed
next
  case (PatchTask p v)
  have "ids (snd (handle B r s)) = filter (\<lambda>_. True) (ids s)"
    using PatchTask by (auto simp: patch_task_def ids_def ids_assign_status split: option.splits)
  moreover have "taskId (snd (handle B r s)) = taskId s"
    using PatchTask by (auto simp: patch_task_def split: option.splits)
  ultimately show ?thesis by blast
next
  case (DeleteTask p)
  have "ids (snd (handle B r s)) = filter (\<lambda>i. Some i \<noteq> parseInt p) (ids s)"
    using DeleteTask by (auto simp: delete_task_def ids_def Let_def filter_map comp_def)
  moreover have "taskId (snd (handle B r s)) = taskId s"
    using DeleteTask by (auto simp: delete_task_def Let_def)
  ultimately show ?thesis by blast
next
  case (GetTasks u)
  have "ids (snd (handle B r s)) = filter (\<lambda>_. True) (ids s)" "taskId (snd (handle B r s)) = taskId s"
    using GetTasks by (auto simp: get_tasks_def ids_def Let_def)
  then show ?thesis by blast
qed

lemma handle_taskId_mono: "taskId s \<le> taskId (snd (handle B r s))"
  using handle_taskId_cases [of B r s] by auto

lemma handle_store_inv:
  assumes "store_inv s"
  shows "store_inv (snd (handle B r s))"
proof -
  from assms have a: "1 \<le> taskId s" "\<And>i. i \<in> set (ids s) \<Longrightarrow> 1 \<le> i \<and> i < taskId s"
    "sorted_wrt (<) (ids s)"
    by (auto simp: store_inv_def list_all_iff)
  from handle_taskId_cases [of B r s] show ?thesis
  proof (elim disjE conjE exE)
    fix P
    assume "taskId (snd (handle B r s)) = taskId s" "ids (snd (handle B r s)) = filter P (ids s)"
    with a show ?thesis
      by (auto simp: store_inv_def list_all_iff sorted_wrt_filter)
  next
    assume "taskId (snd (handle B r s)) = taskId s + 1" "ids (snd (handle B r s)) = ids s @ [taskId s]"
    with a show ?thesis
      by (fastforce simp: store_inv_def list_all_iff sorted_wrt_append)
  qed
qed

lemma assigned_ids_eq:
  assumes "store_inv s"
  shows "assigned_ids B r s = [taskId s..taskId (snd (handle B r s)) - 1]"
proof -
  from assms have a: "\<And>i. i \<in> set (ids s) \<Longrightarrow> i < taskId s"
    by (auto simp: store_inv_def list_all_iff)
  from handle_taskId_cases [of B r s] show ?thesis
  proof (elim disjE conjE exE)
    fix P
    assume "taskId (snd (handle B r s)) = taskId s" "ids (snd (handle B r s)) = filter P (ids s)"
    then show ?thesis
      by (simp add: assigned_ids_def filter_empty_conv)
  next
    assume "taskId (snd (handle B r s)) = taskId s + 1" "ids (snd (handle B r s)) = ids s @ [taskId s]"
    moreover have "taskId s \<notin> set (ids s)"
      using a by blast
    moreover have "filter (\<lambda>i. i \<notin> set (ids s)) (ids s) = []"
      by (simp add: filter_empty_conv)
    ultimately show ?thesis
      by (simp add: assigned_ids_def)
  qed
qed

lemma run_taskId_mono: "taskId s \<le> taskId (run B rs s)"
proof (induction rs arbitrary: s)
  case Nil
  then show ?case by simp
next
  case (Cons r rs)
  have "taskId s \<le> taskId (snd (handle B r s))" by (rule handle_taskId_mono)
  also have "\<dots> \<le> taskId (run B rs (snd (handle B r s)))" by (rule Cons.IH)
  finally show ?case by simp
qed

lemma run_store_inv: "store_inv s \<Longrightarrow> store_inv (run B rs s)"
  by (induction rs arbitrary: s) (auto simp: handle_store_inv)

lemma upto_append: "i \<le> j \<Longrightarrow> j \<le> k \<Longrightarrow> [i..j - 1] @ [j..k - 1] = [i..k - 1]" for i j k :: int
proof (cases "j = k")
  case True
  then show ?thesis by simp
next
  case False
  assume "i \<le> j" "j \<le> k"
  with False have "j \<le> k - 1" by simp
  with \<open>i \<le> j\<close> show ?thesis
    using upto_split1 [of i j "k - 1"] by simp
qed

lemma created_ids_eq:
  "store_inv s \<Longrightarrow> created_ids B rs s = [taskId s..taskId (run B rs s) - 1]"
proof (induction rs arbitrary: s)
  case Nil
  then show ?case by simp
next
  case (Cons r rs)
  let ?s' = "snd (handle B r s)"
  have "created_ids B (r # rs) s = [taskId s..taskId ?s' - 1] @ [taskId ?s'..taskId (run B rs ?s') - 1]"
    using Cons.IH [of ?s'] Cons.prems by (simp add: assigned_ids_eq handle_store_inv)
  also have "\<dots> = [taskId s..taskId (run B rs ?s') - 1]"
    by (rule upto_append) (simp_all add: handle_taskId_mono run_taskId_mono)
  finally show ?case by simp
qed

lemma store_inv_init: "store_inv init"
  by (simp add: store_inv_def init_def ids_def)

lemma run_distinct: "distinct (map task_id (tasks (run B rs init)))"
  using run_store_inv [OF store_inv_init, of B rs]
  by (simp add: store_inv_def ids_def strict_sorted_iff)

lemma store1_reachable:
  "run toy_bcrypt [Register ''s1'' (JStr ''alice'') (JStr ''pw1''),
     PostTask (JStr ''alice'') (JStr ''buy milk'')] init = store1"
  by code_simp

lemma store10_reachable: "run toy_bcrypt requests10 init = store10"
  by code_simp

lemma parseInt_2: "parseInt ''2'' = Some 2"
  by code_simp

text \<open>
  C3. After any sequence of register, login, create, update, delete and list requests from
  the initial store: the ids assigned so far, in the order of assignment, are 1, 2, ... up
  to the counter minus one, hence strictly increasing and pairwise distinct; every id
  held is one of them, so the id that a further request assigns differs from every id
  held and from every id deleted before; the ids held are strictly increasing along the
  collection, hence pairwise distinct; and no request, in any store, decreases the
  counter, which is at least 1. Deletions between creations do not matter.
\<close>

theorem task_ids_never_reused:
  "created_ids B rs init = [1..taskId (run B rs init) - 1] \<and>
   sorted_wrt (<) (created_ids B rs init) \<and>
   distinct (created_ids B rs init) \<and>
   set (ids (run B rs init)) \<subseteq> set (created_ids B rs init) \<and>
   set (assigned_ids B r (run B rs init)) \<inter> set (created_ids B rs init) = {} \<and>
   sorted_wrt (<) (ids (run B rs init)) \<and>
   distinct (ids (run B rs init)) \<and>
   taskId s \<le> taskId (snd (handle B r s)) \<and>
   1 \<le> taskId (run B rs init)"
proof -
  let ?s = "run B rs init"
  have inv: "store_inv ?s"
    by (rule run_store_inv [OF store_inv_init])
  have c: "created_ids B rs init = [1..taskId ?s - 1]"
    using created_ids_eq [OF store_inv_init, of B rs] by (simp add: init_def)
  have held: "set (ids ?s) \<subseteq> set (created_ids B rs init)"
    using inv by (auto simp: c store_inv_def list_all_iff)
  have fresh: "set (assigned_ids B r ?s) \<inter> set (created_ids B rs init) = {}"
    by (auto simp: c assigned_ids_eq [OF inv])
  have d: "distinct (ids ?s)"
    using run_distinct [of B rs] by (simp add: ids_def)
  have one: "1 \<le> taskId ?s" and incr: "sorted_wrt (<) (ids ?s)"
    using inv by (simp_all add: store_inv_def)
  show ?thesis
    using c held fresh d one incr handle_taskId_mono [of s B r]
    by (simp add: sorted_wrt_upto del: created_ids.simps)
qed

theorem task_ids_never_reused_witness:
  "created_ids toy_bcrypt requests1 init = [1, 2, 3] \<and>
   ids (run toy_bcrypt requests1 init) = [2, 3] \<and>
   taskId (run toy_bcrypt requests1 init) = 4"
  using task_ids_never_reused [of toy_bcrypt requests1 "PostTask (JStr ''alice'') JNull" init]
  by (simp add: requests1_def init_def register_def post_task_def delete_task_def login_def
        patch_task_def get_tasks_def find_user_def find_task_def toy_bcrypt_def assigned_ids_def
        ids_def parseInt_1 parseInt_2 valid_statuses_def)

section \<open>The path parameter of update and delete\<close>

lemma parseInt_0: "parseInt ''0'' = Some 0"
  by code_simp

lemma parseInt_0xa: "parseInt ''0xa'' = Some 10"
  by code_simp

lemma parseInt_0xz: "parseInt ''0xz'' = None"
  by code_simp

lemma parseInt_3abc: "parseInt ''3abc'' = Some 3"
  by code_simp

lemma radix_digit_10: "radix_digit 10 c \<longleftrightarrow> 48 \<le> (of_char c :: nat) \<and> (of_char c :: nat) \<le> 57"
  by (auto simp: radix_digit_def digit_of_def Let_def)

lemma digit_not_special:
  assumes "radix_digit 10 c"
  shows "\<not> is_white_space c" "c \<noteq> CHR ''-''" "c \<noteq> CHR ''+''" "c \<noteq> CHR ''x''" "c \<noteq> CHR ''X''"
  using assms by (auto simp: radix_digit_10 is_white_space_def)

lemma parseInt_digits:
  assumes "ds \<noteq> []" and "\<forall>c \<in> set ds. radix_digit 10 c"
    and "r = [] \<or> \<not> radix_digit 10 (hd r)"
    and "\<not> (ds = ''0'' \<and> r \<noteq> [] \<and> hd r \<in> {CHR ''x'', CHR ''X''})"
  shows "parseInt (ds @ r) = Some (int (math_int 10 0 ds))"
proof -
  obtain d ds' where ds: "ds = d # ds'"
    using assms(1) by (cases ds) auto
  have d: "radix_digit 10 d"
    using assms(2) ds by simp
  have ws: "dropWhile is_white_space (ds @ r) = ds @ r"
    using digit_not_special(1) [OF d] ds by simp
  have sg: "strip_sign (ds @ r) = (1, ds @ r)"
    using digit_not_special(2,3) [OF d] ds by (simp add: strip_sign_def)
  have "take 2 (ds @ r) \<noteq> ''0x'' \<and> take 2 (ds @ r) \<noteq> ''0X''"
  proof (cases ds')
    case Nil
    with assms(4) ds show ?thesis
      by (cases r) auto
  next
    case (Cons d2 ds'')
    then have "radix_digit 10 d2"
      using assms(2) ds by simp
    from digit_not_special(4,5) [OF this] Cons ds show ?thesis
      by simp
  qed
  then have px: "strip_prefix (ds @ r) = (10, ds @ r)"
    by (simp add: strip_prefix_def)
  have "takeWhile (radix_digit 10) r = []"
    using assms(3) by (cases r) auto
  then have tw: "takeWhile (radix_digit 10) (ds @ r) = ds"
    using assms(2) by (simp add: takeWhile_append2)
  show ?thesis
    using assms(1) by (simp add: parseInt_def ws sg px tw)
qed

lemma parseInt_None_no_digit:
  assumes "parseInt p = None"
  shows "p = [] \<or> \<not> radix_digit 10 (hd p) \<or> take 2 p = ''0x'' \<or> take 2 p = ''0X''"
proof (rule ccontr)
  assume neg: "\<not> ?thesis"
  let ?ds = "takeWhile (radix_digit 10) p" and ?r = "dropWhile (radix_digit 10) p"
  from neg obtain d p' where p: "p = d # p'" and d: "radix_digit 10 d"
    by (cases p) auto
  have 1: "?ds \<noteq> []" using p d by simp
  have 2: "\<forall>c \<in> set ?ds. radix_digit 10 c"
    by (meson set_takeWhileD)
  have 3: "?r = [] \<or> \<not> radix_digit 10 (hd ?r)"
    by (metis hd_dropWhile)
  have 4: "\<not> (?ds = ''0'' \<and> ?r \<noteq> [] \<and> hd ?r \<in> {CHR ''x'', CHR ''X''})"
  proof
    assume a: "?ds = ''0'' \<and> ?r \<noteq> [] \<and> hd ?r \<in> {CHR ''x'', CHR ''X''}"
    then obtain c r' where r: "?r = c # r'" and c: "c = CHR ''x'' \<or> c = CHR ''X''"
      by (cases ?r) auto
    have "p = ?ds @ ?r" by simp
    with a r have "p = CHR ''0'' # c # r'" by simp
    with c neg show False by auto
  qed
  have "parseInt (?ds @ ?r) = Some (int (math_int 10 0 ?ds))"
    by (rule parseInt_digits [OF 1 2 3 4])
  with assms show False by simp
qed

lemma patch_task_NaN:
  "parseInt p = None \<Longrightarrow> patch_task p status s = (Response 404 (Text ''Task not found''), s)"
proof -
  assume "parseInt p = None"
  then have "find_task (parseInt p) (tasks s) = None"
    by (simp add: find_task_def find_None_iff)
  then show ?thesis
    by (simp add: patch_task_def)
qed

lemma delete_task_NaN:
  "parseInt p = None \<Longrightarrow>
   delete_task p s = (Response 404 (Text ''Task not found or already deleted''), s)"
  by (simp add: delete_task_def)

lemma patch_task_parseInt_cong:
  "parseInt p = parseInt q \<Longrightarrow> patch_task p status s = patch_task q status s"
  by (simp add: patch_task_def split: option.splits)

lemma delete_task_parseInt_cong:
  "parseInt p = parseInt q \<Longrightarrow> delete_task p s = delete_task q s"
  by (simp add: delete_task_def)

text \<open>
  C9, as the code has it. A path id made of one or more decimal digits followed by a
  character that is not a decimal digit parses to the decimal value of the digits, and
  update and delete then behave exactly as for the digits alone, unless the digits are
  the single digit 0 and the next character is x or X: \<^verbatim>\<open>parseInt\<close> then reads what
  follows as a hexadecimal number. A path id that parses to \<^verbatim>\<open>NaN\<close> matches no task,
  both handlers answer not-found and leave the store unchanged, and such an id is empty,
  does not start with a decimal digit, or starts with 0x or 0X.
\<close>

theorem path_id_leading_digits:
  "(ds \<noteq> [] \<and> (\<forall>c \<in> set ds. radix_digit 10 c) \<and> r \<noteq> [] \<and> \<not> radix_digit 10 (hd r) \<and>
    \<not> (ds = ''0'' \<and> hd r \<in> {CHR ''x'', CHR ''X''}) \<longrightarrow>
      parseInt (ds @ r) = Some (int (math_int 10 0 ds)) \<and>
      parseInt ds = Some (int (math_int 10 0 ds)) \<and>
      patch_task (ds @ r) status s = patch_task ds status s \<and>
      delete_task (ds @ r) s = delete_task ds s) \<and>
   (parseInt p = None \<longrightarrow>
      patch_task p status s = (Response 404 (Text ''Task not found''), s) \<and>
      delete_task p s = (Response 404 (Text ''Task not found or already deleted''), s) \<and>
      (p = [] \<or> \<not> radix_digit 10 (hd p) \<or> take 2 p = ''0x'' \<or> take 2 p = ''0X''))"
proof -
  have first: "parseInt (ds @ r) = Some (int (math_int 10 0 ds)) \<and>
      parseInt ds = Some (int (math_int 10 0 ds)) \<and>
      patch_task (ds @ r) status s = patch_task ds status s \<and>
      delete_task (ds @ r) s = delete_task ds s"
    if a: "ds \<noteq> []" "\<forall>c \<in> set ds. radix_digit 10 c" "r \<noteq> []" "\<not> radix_digit 10 (hd r)"
      "\<not> (ds = ''0'' \<and> hd r \<in> {CHR ''x'', CHR ''X''})"
  proof -
    have 1: "parseInt (ds @ r) = Some (int (math_int 10 0 ds))"
      using a by (intro parseInt_digits) auto
    have 2: "parseInt ds = Some (int (math_int 10 0 ds))"
      using parseInt_digits [of ds "[]"] a by simp
    from 1 2 have "parseInt (ds @ r) = parseInt ds" by simp
    then show ?thesis
      using 1 2 patch_task_parseInt_cong delete_task_parseInt_cong by blast
  qed
  show ?thesis
    using first patch_task_NaN delete_task_NaN parseInt_None_no_digit by blast
qed

theorem path_id_leading_digits_witness:
  "parseInt ''3abc'' = Some 3 \<and> parseInt ''3'' = Some 3 \<and>
   patch_task ''3abc'' (JStr ''done'') store1 = patch_task ''3'' (JStr ''done'') store1 \<and>
   delete_task ''3abc'' store1 = delete_task ''3'' store1 \<and>
   patch_task ''abc'' (JStr ''done'') store1 = (Response 404 (Text ''Task not found''), store1) \<and>
   delete_task ''abc'' store1 =
     (Response 404 (Text ''Task not found or already deleted''), store1)"
  using path_id_leading_digits [of "''3''" "''abc''" "JStr ''done''" store1 "''abc''"]
  by (simp add: radix_digit_10 parseInt_abc digit_of_def)

text \<open>
  C9 as stated fails on the path id \<^verbatim>\<open>0xa\<close>, the digit 0 followed by the non-digits
  \<^verbatim>\<open>xa\<close>: in a store that holds task 10 (ten creations, nine deletions), update and
  delete operate on task 10, while for the path id \<^verbatim>\<open>0\<close> they answer not-found. And
  \<^verbatim>\<open>0xz\<close>, which starts with a digit, parses to \<^verbatim>\<open>NaN\<close>.
\<close>

theorem path_id_hex_counterexample:
  "patch_task (''0'' @ ''xa'') (JStr ''done'') store10 \<noteq> patch_task ''0'' (JStr ''done'') store10 \<and>
   fst (patch_task (''0'' @ ''xa'') (JStr ''done'') store10) = Response 200 (Text ''Task updated'') \<and>
   fst (patch_task ''0'' (JStr ''done'') store10) = Response 404 (Text ''Task not found'') \<and>
   fst (delete_task (''0'' @ ''xa'') store10) = Response 200 (Text ''Task deleted'') \<and>
   fst (delete_task ''0'' store10) = Response 404 (Text ''Task not found or already deleted'') \<and>
   parseInt (''0'' @ ''xz'') = None"
  by (simp add: patch_task_def delete_task_def find_task_def store10_def task10_def
        parseInt_0 parseInt_0xa parseInt_0xz valid_statuses_def)

end
